theory Spec2Isabelle
  imports Main
begin

section \<open>Python strings\<close>

text \<open>
  A Python \<^verbatim>\<open>str\<close> is a sequence of Unicode code points, so a string is modelled as a
  list of natural numbers (the code points), not as a list of 8-bit characters: the line
  boundaries of \<^verbatim>\<open>str.splitlines\<close> include U+2028 and U+2029. A literal of the source is
  written \<open>lit ''...''\<close>.
\<close>

type_synonym pystr = "nat list"

definition lit :: "string \<Rightarrow> pystr" where
  "lit s = map of_char s"

text \<open>\<^verbatim>\<open>s.startswith(p)\<close>\<close>

definition startswith :: "pystr \<Rightarrow> pystr \<Rightarrow> bool" where
  "startswith s p = (take (length p) s = p)"

text \<open>\<^verbatim>\<open>s.find(sep)\<close>: the index of the first occurrence of \<open>sep\<close>, \<open>None\<close> for Python's -1.\<close>

fun find_str :: "pystr \<Rightarrow> pystr \<Rightarrow> nat option" where
  "find_str [] sep = (if sep = [] then Some 0 else None)"
| "find_str (c # cs) sep =
     (if startswith (c # cs) sep then Some 0 else map_option Suc (find_str cs sep))"

text \<open>\<^verbatim>\<open>sep in s\<close> for two strings.\<close>

definition contains_str :: "pystr \<Rightarrow> pystr \<Rightarrow> bool" where
  "contains_str s sep = (find_str s sep \<noteq> None)"

text \<open>
  \<^verbatim>\<open>s.partition(sep)\<close>: split at the first occurrence of \<open>sep\<close>; when \<open>sep\<close> does not
  occur the result is \<open>(s, '''', '''')\<close>.
\<close>

definition partition_str :: "pystr \<Rightarrow> pystr \<Rightarrow> pystr \<times> pystr \<times> pystr" where
  "partition_str s sep =
     (case find_str s sep of
        None \<Rightarrow> (s, [], [])
      | Some i \<Rightarrow> (take i s, sep, drop (i + length sep) s))"

text \<open>
  \<^verbatim>\<open>s.splitlines()\<close>. The line boundaries of a \<^verbatim>\<open>str\<close> are \<^verbatim>\<open>\n\<close> (10), \<^verbatim>\<open>\r\<close> (13),
  \<^verbatim>\<open>\r\n\<close>, \<^verbatim>\<open>\v\<close> (11), \<^verbatim>\<open>\f\<close> (12), \<^verbatim>\<open>\x1c\<close>, \<^verbatim>\<open>\x1d\<close>, \<^verbatim>\<open>\x1e\<close> (28 to 30),
  \<^verbatim>\<open>\x85\<close> (133), U+2028 (8232) and U+2029 (8233). The boundaries are dropped, and a
  boundary at the very end does not open a further, empty line.
\<close>

definition is_linebreak :: "nat \<Rightarrow> bool" where
  "is_linebreak c = (c \<in> {10, 11, 12, 13, 28, 29, 30, 133, 8232, 8233})"

fun splitlines_from :: "pystr \<Rightarrow> pystr \<Rightarrow> pystr list" where
  "splitlines_from cur [] = (if cur = [] then [] else [cur])"
| "splitlines_from cur [c] =
     (if is_linebreak c then [cur] else [cur @ [c]])"
| "splitlines_from cur (c # c' # cs) =
     (if c = 13 \<and> c' = 10 then cur # splitlines_from [] cs
      else if is_linebreak c then cur # splitlines_from [] (c' # cs)
      else splitlines_from (cur @ [c]) (c' # cs))"

definition splitlines :: "pystr \<Rightarrow> pystr list" where
  "splitlines s = splitlines_from [] s"

text \<open>\<^verbatim>\<open>s.split("\n")\<close>: always at least one piece, the last one possibly empty.\<close>

fun split_nl_from :: "pystr \<Rightarrow> pystr \<Rightarrow> pystr list" where
  "split_nl_from cur [] = [cur]"
| "split_nl_from cur (c # cs) =
     (if c = 10 then cur # split_nl_from [] cs else split_nl_from (cur @ [c]) cs)"

definition split_nl :: "pystr \<Rightarrow> pystr list" where
  "split_nl s = split_nl_from [] s"

text \<open>\<^verbatim>\<open>s.rstrip("\r")\<close>: every trailing carriage return is removed.\<close>

definition rstrip_cr :: "pystr \<Rightarrow> pystr" where
  "rstrip_cr s = rev (dropWhile (\<lambda>c. c = 13) (rev s))"

text \<open>Truth value of an optional string: \<^verbatim>\<open>None\<close> and the empty string are false.\<close>

fun truthy :: "pystr option \<Rightarrow> bool" where
  "truthy None = False"
| "truthy (Some s) = (s \<noteq> [])"

section \<open>The diff change extractor\<close>

text \<open>
  The generator of \<^verbatim>\<open>rmr.py\<close>:
  \<^verbatim>\<open>
  def extract_changes(output, default_path=None):
      a_path = b_path = None
      change = []
      for line in output.splitlines():
          if line in ("n", "y", "s"):
              continue
          if line.startswith(("diff ", "index ")):
              if change:
                  yield a_path, change
              a_path = b_path = None
              change = []
              continue
          if line.startswith("@@ "):
              continue
          if line.startswith("--- a/"):
              *_, a_path = line.partition(" a/")
              continue
          if line.startswith("+++ b/"):
              *_, b_path = line.partition(" b/")
              continue
          if not a_path and default_path:
              a_path = default_path
          if not line.startswith(("+", "-")):
              # context line
              if change:
                  yield a_path, change
              change = []
              continue
          change.append(line)
      if change:
          yield a_path, change
  \<close>
  A change is the list of its lines; a path is \<^verbatim>\<open>None\<close> or a string. The generator's local
  variables are the record \<open>xstate\<close>; \<open>extract_step\<close> is the body of the \<^verbatim>\<open>for\<close> loop,
  returning the new locals and what the body yields (\<open>flush\<close> is \<^verbatim>\<open>if change: yield a_path,
  change\<close>, \<open>use_default\<close> the assignment of the default path); \<open>extract_loop\<close> is the loop
  with the final flush. The list yielded is never changed afterwards, since \<^verbatim>\<open>change\<close> is
  bound to a new list after each \<^verbatim>\<open>yield\<close>.
\<close>

type_synonym change = "pystr list"
type_synonym path = "pystr option"

record xstate =
  a_path :: path
  b_path :: path
  change :: change

definition is_answer :: "pystr \<Rightarrow> bool" where
  "is_answer line = (line = lit ''n'' \<or> line = lit ''y'' \<or> line = lit ''s'')"

definition is_plus_minus :: "pystr \<Rightarrow> bool" where
  "is_plus_minus line = (startswith line (lit ''+'') \<or> startswith line (lit ''-''))"

definition flush :: "xstate \<Rightarrow> (path \<times> change) list" where
  "flush st = (if change st \<noteq> [] then [(a_path st, change st)] else [])"

definition use_default :: "path \<Rightarrow> xstate \<Rightarrow> xstate" where
  "use_default default_path st =
     (if \<not> truthy (a_path st) \<and> truthy default_path
      then st\<lparr>a_path := default_path\<rparr> else st)"

definition extract_step :: "path \<Rightarrow> xstate \<Rightarrow> pystr \<Rightarrow> xstate \<times> (path \<times> change) list" where
  "extract_step default_path st line =
     (if is_answer line then (st, [])
      else if startswith line (lit ''diff '') \<or> startswith line (lit ''index '')
        then (\<lparr>a_path = None, b_path = None, change = []\<rparr>, flush st)
      else if startswith line (lit ''@@ '') then (st, [])
      else if startswith line (lit ''--- a/'')
        then (st\<lparr>a_path := Some (snd (snd (partition_str line (lit '' a/''))))\<rparr>, [])
      else if startswith line (lit ''+++ b/'')
        then (st\<lparr>b_path := Some (snd (snd (partition_str line (lit '' b/''))))\<rparr>, [])
      else
        (let st1 = use_default default_path st in
         if \<not> is_plus_minus line
           then (st1\<lparr>change := []\<rparr>, flush st1)
           else (st1\<lparr>change := change st1 @ [line]\<rparr>, [])))"

fun extract_loop :: "path \<Rightarrow> xstate \<Rightarrow> pystr list \<Rightarrow> (path \<times> change) list" where
  "extract_loop default_path st [] = flush st"
| "extract_loop default_path st (line # lines) =
     (case extract_step default_path st line of
        (st', ys) \<Rightarrow> ys @ extract_loop default_path st' lines)"

definition extract_init :: xstate where
  "extract_init = \<lparr>a_path = None, b_path = None, change = []\<rparr>"

definition extract_changes :: "pystr \<Rightarrow> path \<Rightarrow> (path \<times> change) list" where
  "extract_changes output default_path =
     extract_loop default_path extract_init (splitlines output)"




section \<open>Diff texts\<close>

text \<open>
  The text of lines, each followed by a newline: what \<^verbatim>\<open>buffer += f"{line}\n"\<close> builds, and
  the form of a diff. A line is \<open>plain\<close> when it holds no line boundary of its own.
\<close>

definition unlines :: "pystr list \<Rightarrow> pystr" where
  "unlines ls = concat (map (\<lambda>l. l @ [10]) ls)"


text \<open>
  A unified diff as data: a file section is the \<^verbatim>\<open>diff\<close> line, the \<^verbatim>\<open>index\<close> line, the two
  path lines and the hunks; a hunk is its \<^verbatim>\<open>@@\<close> line, leading context lines, one run of added
  and removed lines, and trailing context lines. A context line starts with a space. An
  added or removed line of a well-formed hunk here starts with \<^verbatim>\<open>+\<close> or \<^verbatim>\<open>-\<close> and is not
  itself of the form of a path line.
\<close>

record hunk =
  hunk_range :: pystr
  lead :: "pystr list"
  body :: "pystr list"
  trail :: "pystr list"












section \<open>The ignore store\<close>

text \<open>
  \<^verbatim>\<open>IgnoredSuggestionStore\<close>: \<^verbatim>\<open>_ignores\<close> is a dictionary from paths to lists of changes,
  \<^verbatim>\<open>_used\<close> the list of the pairs asked for while \<^verbatim>\<open>purge_unused\<close> is set. Reading and
  writing the JSON file is left out.
  \<^verbatim>\<open>
  def add(self, path, suggestion):
      if path not in self._ignores:
          self._ignores[path] = []
      self._ignores[path].append(suggestion)

  def __contains___(self, change):
      if self.purge_unused:
          self._used.append(change)
      path, suggestion = change
      return suggestion in self._ignores.get(path, [])
  \<close>
\<close>

datatype py_error = TypeError | BdbQuit | ReadError

record IgnoredSuggestionStore =
  ignores :: "path \<rightharpoonup> change list"
  purge_unused :: bool
  used :: "(path \<times> change) list"

definition add :: "IgnoredSuggestionStore \<Rightarrow> path \<Rightarrow> change \<Rightarrow> IgnoredSuggestionStore" where
  "add self p suggestion =
     self\<lparr>ignores := (ignores self)
       (p \<mapsto> (case ignores self p of None \<Rightarrow> [] | Some l \<Rightarrow> l) @ [suggestion])\<rparr>"

text \<open>
  The method the class declares under the name \<^verbatim>\<open>__contains___\<close>, with three underscores
  at its end (a name that cannot be written here, hence \<open>contains_method\<close>). It returns the
  answer and the store with the use recorded.
\<close>

definition contains_method :: "IgnoredSuggestionStore \<Rightarrow> path \<times> change \<Rightarrow> bool \<times> IgnoredSuggestionStore" where
  "contains_method self chg =
     (let self1 = (if purge_unused self then self\<lparr>used := used self @ [chg]\<rparr> else self)
      in case chg of (p, suggestion) \<Rightarrow>
        (suggestion \<in> set (case ignores self1 p of None \<Rightarrow> [] | Some l \<Rightarrow> l), self1))"

text \<open>
  The operator \<^verbatim>\<open>x in obj\<close> looks the name \<^verbatim>\<open>__contains__\<close> up in the class of \<open>obj\<close> and
  calls what it finds; without it, it falls back on iteration (\<^verbatim>\<open>__iter__\<close>, then
  \<^verbatim>\<open>__getitem__\<close>), and raises \<^verbatim>\<open>TypeError\<close> when the class has none of them. The class
  declares \<^verbatim>\<open>__init__\<close>, \<^verbatim>\<open>__enter__\<close>, \<^verbatim>\<open>__exit__\<close>, \<^verbatim>\<open>add\<close> and \<^verbatim>\<open>__contains___\<close>; the
  table holds the one of them that takes a pair and answers a membership test, under the
  name the source gives it.
\<close>

definition IgnoredSuggestionStore_methods ::
    "(string \<times> (IgnoredSuggestionStore \<Rightarrow> path \<times> change \<Rightarrow> bool \<times> IgnoredSuggestionStore)) list" where
  "IgnoredSuggestionStore_methods = [(''__contains___'', contains_method)]"

definition py_in :: "IgnoredSuggestionStore \<Rightarrow> path \<times> change \<Rightarrow> py_error + bool \<times> IgnoredSuggestionStore" where
  "py_in self chg =
     (case map_of IgnoredSuggestionStore_methods ''__contains__'' of
        Some method \<Rightarrow> Inr (method self chg)
      | None \<Rightarrow> Inl TypeError)"

section \<open>The hunk decision engine\<close>

text \<open>
  \<^verbatim>\<open>
  def revert_ignored_changes(permanently_ignored):
      buffer = ""
      path = None
      for line in (proc := Process(["git", "checkout", "-p"])):
          if "Discard this hunk from worktree" in line:
              changes = list(extract_changes(buffer, default_path=path))
              if len(changes) > 1:
                  proc.writeline("s")
              elif not changes:
                  breakpoint()
              else:
                  [[path, change]] = changes
                  #if ignores.is_ignored(path, change):
                  if (path, change) in permanently_ignored:
                      proc.writeline("y")
                  else:
                      proc.writeline("n")
              buffer = ""
          else:
              buffer += f"{line}\n"
  \<close>
  The locals of the function are \<open>buffer\<close>
  and \<open>path\<close>; \<open>policy\<close> is the object passed in, whose state a membership test may change,
  and \<open>breaks\<close> counts the calls of \<^verbatim>\<open>breakpoint()\<close> made so far. What \<^verbatim>\<open>in\<close> does on the
  object passed in is the parameter \<open>member\<close>. \<^verbatim>\<open>breakpoint()\<close> calls the hook of the
  interpreter, by default the debugger: \<open>hook k\<close> tells whether the call number \<open>k\<close> comes
  back (the debugger is left with \<^verbatim>\<open>continue\<close>, or the hook is switched off) or the debugger
  is quit, which raises \<^verbatim>\<open>BdbQuit\<close> before the next statement runs.

  The body of the loop returns the exception raised, if any, the new locals and the lines
  passed to \<^verbatim>\<open>proc.writeline\<close>.
\<close>

record 'p engine =
  buffer :: pystr
  path :: path
  policy :: 'p
  breaks :: nat

type_synonym 'p member = "'p \<Rightarrow> path \<times> change \<Rightarrow> py_error + bool \<times> 'p"

type_synonym 'e body = "'e \<Rightarrow> pystr \<Rightarrow> py_error option \<times> 'e \<times> pystr list"

definition is_prompt :: "pystr \<Rightarrow> bool" where
  "is_prompt line = contains_str line (lit ''Discard this hunk from worktree'')"

text \<open>
  The branch taken at a recognised prompt. In its last case \<open>changes\<close> has exactly one
  element, which \<^verbatim>\<open>[[path, change]] = changes\<close> unpacks, assigning \<open>path\<close> before the
  membership test runs.
\<close>

definition decide :: "'p member \<Rightarrow> (nat \<Rightarrow> bool) \<Rightarrow> 'p engine body" where
  "decide member hook e line =
     (let changes = extract_changes (buffer e) (path e) in
      if length changes > 1 then (None, e\<lparr>buffer := []\<rparr>, [lit ''s''])
      else if changes = [] then
        (if hook (breaks e)
         then (None, e\<lparr>buffer := [], breaks := Suc (breaks e)\<rparr>, [])
         else (Some BdbQuit, e\<lparr>breaks := Suc (breaks e)\<rparr>, []))
      else
        (case hd changes of (p, c) \<Rightarrow>
           (case member (policy e) (p, c) of
              Inl err \<Rightarrow> (Some err, e\<lparr>path := p\<rparr>, [])
            | Inr (True, pol) \<Rightarrow>
                (None, e\<lparr>buffer := [], path := p, policy := pol\<rparr>, [lit ''y''])
            | Inr (False, pol) \<Rightarrow>
                (None, e\<lparr>buffer := [], path := p, policy := pol\<rparr>, [lit ''n'']))))"

definition engine_step :: "'p member \<Rightarrow> (nat \<Rightarrow> bool) \<Rightarrow> 'p engine body" where
  "engine_step member hook e line =
     (if is_prompt line then decide member hook e line
      else (None, e\<lparr>buffer := buffer e @ line @ [10]\<rparr>, []))"

text \<open>
  A \<^verbatim>\<open>for\<close> loop running a body over the lines it is given, until the body raises: the
  exception if any, the last state, and the lines written, in order. \<open>taken\<close> is the part of
  the lines that the loop asked for: all of them, or those up to the one the body raised on.
\<close>

fun consume :: "'e body \<Rightarrow> 'e \<Rightarrow> pystr list \<Rightarrow> py_error option \<times> 'e \<times> pystr list" where
  "consume f e [] = (None, e, [])"
| "consume f e (line # lines) =
     (case f e line of
        (Some err, e', ws) \<Rightarrow> (Some err, e', ws)
      | (None, e', ws) \<Rightarrow>
          (case consume f e' lines of (r, e'', ws') \<Rightarrow> (r, e'', ws @ ws')))"

fun taken :: "'e body \<Rightarrow> 'e \<Rightarrow> pystr list \<Rightarrow> pystr list" where
  "taken f e [] = []"
| "taken f e (line # lines) =
     (case f e line of
        (Some err, e', ws) \<Rightarrow> [line]
      | (None, e', ws) \<Rightarrow> line # taken f e' lines)"

definition engine_init :: "'p \<Rightarrow> 'p engine" where
  "engine_init pol = \<lparr>buffer = [], path = None, policy = pol, breaks = 0\<rparr>"

section \<open>The interactive process driver\<close>

text \<open>
  \<^verbatim>\<open>
  def __iter__(self):
      while self.proc.poll() is None:
          r, w, x = select.select([self.master], [self.master], [self.master], 0)
          if x:
              return
          if r:
              data = os.read(self.master, 1_000_000).decode()
              lines = data.split("\n")
              # Theoretically we could end put yielding partial lines.
              yield from (line.rstrip("\r") for line in lines)
          if w and self._stdin_queue:
              line = self._stdin_queue.pop(0)
              os.write(self.master, f"{line}\n".encode())

  def writeline(self, line):
      self._stdin_queue.append(line)
  \<close>
  What the loop sees of the child and the terminal in one iteration is
  an observation: whether \<^verbatim>\<open>poll()\<close> reports the exit of the child, the three answers of
  \<^verbatim>\<open>select\<close>, and what \<^verbatim>\<open>os.read(...).decode()\<close> gives at that moment: the text that waits
  on the terminal, or an exception. The loop looks at these in the order of the source, so
  an observation describes the world also where the loop does not ask. A list of
  observations is the run of the world as far as it is known; when it is used up the loop
  is still polling.

  The generator hands each line to the body of the consumer's \<^verbatim>\<open>for\<close> loop, which may call
  \<^verbatim>\<open>writeline\<close>; the result is how the loop ended, the lines yielded, the consumer's state
  and the process: the queue and the lines written to the terminal.
\<close>

record observation =
  exited :: bool
  readable :: bool
  writable :: bool
  exceptional :: bool
  pending :: "py_error + pystr"

record Process =
  stdin_queue :: "pystr list"
  master :: "pystr list"

datatype stop = ChildExited | TerminalError | Raised py_error | StillPolling

definition chunk_lines :: "pystr \<Rightarrow> pystr list" where
  "chunk_lines chunk = map rstrip_cr (split_nl chunk)"

definition writeline :: "Process \<Rightarrow> pystr \<Rightarrow> Process" where
  "writeline pr line = pr\<lparr>stdin_queue := stdin_queue pr @ [line]\<rparr>"

definition write_queued :: "observation \<Rightarrow> Process \<Rightarrow> Process" where
  "write_queued ob pr =
     (case stdin_queue pr of
        line # queue \<Rightarrow>
          (if writable ob then pr\<lparr>stdin_queue := queue, master := master pr @ [line @ [10]]\<rparr>
           else pr)
      | [] \<Rightarrow> pr)"

fun iter :: "'e body \<Rightarrow> observation list \<Rightarrow> 'e \<Rightarrow> Process \<Rightarrow>
    stop \<times> pystr list \<times> 'e \<times> Process" where
  "iter f [] e pr = (StillPolling, [], e, pr)"
| "iter f (ob # obs) e pr =
     (if exited ob then (ChildExited, [], e, pr)
      else if exceptional ob then (TerminalError, [], e, pr)
      else if readable ob then
        (case pending ob of
           Inl err \<Rightarrow> (Raised err, [], e, pr)
         | Inr chunk \<Rightarrow>
             (case consume f e (chunk_lines chunk) of
                (Some err, e', ws) \<Rightarrow>
                  (Raised err, taken f e (chunk_lines chunk), e', foldl writeline pr ws)
              | (None, e', ws) \<Rightarrow>
                  (case iter f obs e' (write_queued ob (foldl writeline pr ws)) of
                     (r, ys, e'', pr') \<Rightarrow> (r, chunk_lines chunk @ ys, e'', pr'))))
      else iter f obs e (write_queued ob pr))"

definition revert_ignored_changes ::
    "'p member \<Rightarrow> (nat \<Rightarrow> bool) \<Rightarrow> 'p \<Rightarrow> observation list \<Rightarrow>
     stop \<times> pystr list \<times> 'p engine \<times> Process" where
  "revert_ignored_changes member hook permanently_ignored obs =
     iter (engine_step member hook) obs (engine_init permanently_ignored)
       \<lparr>stdin_queue = [], master = []\<rparr>"

section \<open>Auxiliary notions and examples\<close>

text \<open>
  The locals of the extractor when the default path \<open>d\<close> is the only path in play: the
  before path is unset or \<open>d\<close>, and it is \<open>d\<close> as soon as a change is being accumulated.
\<close>

definition defaulted :: "pystr \<Rightarrow> xstate \<Rightarrow> bool" where
  "defaulted d st =
     ((a_path st = None \<or> a_path st = Some d) \<and> (change st \<noteq> [] \<longrightarrow> a_path st = Some d))"

text \<open>
  What one iteration reads and yields, and an observation under which the loop goes on:
  the child has not exited, the terminal reports no exceptional condition, and a read, if
  there is one, gives text.
\<close>

definition read_lines :: "observation \<Rightarrow> pystr list" where
  "read_lines ob =
     (if readable ob then (case pending ob of Inr chunk \<Rightarrow> chunk_lines chunk | Inl err \<Rightarrow> [])
      else [])"

definition alive :: "observation \<Rightarrow> bool" where
  "alive ob = (\<not> exited ob \<and> \<not> exceptional ob \<and> (readable ob \<longrightarrow> \<not> isl (pending ob)))"

text \<open>
  A prompt line as the hunk review prints it; two stores; a breakpoint hook that always
  comes back; three observations; and two diffs of one file with two hunks each, the
  second as a diff without context lines gives it.
\<close>

definition prompt_line :: pystr where
  "prompt_line = lit ''Discard this hunk from worktree [y,n,q,a,d,e,?]? ''"

definition empty_store :: IgnoredSuggestionStore where
  "empty_store = \<lparr>ignores = Map.empty, purge_unused = False, used = []\<rparr>"

definition foo_store :: IgnoredSuggestionStore where
  "foo_store = \<lparr>ignores = [Some (lit ''a.txt'') \<mapsto> [[lit ''+foo'']]], purge_unused = False, used = []\<rparr>"

definition resume :: "nat \<Rightarrow> bool" where
  "resume k = True"

definition hello_chunk :: observation where
  "hello_chunk = \<lparr>exited = False, readable = True, writable = True, exceptional = False,
     pending = Inr (lit ''hello'' @ [10])\<rparr>"

definition exit_with_bye :: observation where
  "exit_with_bye = \<lparr>exited = True, readable = True, writable = True, exceptional = False,
     pending = Inr (lit ''bye'' @ [10])\<rparr>"

definition terminal_error :: observation where
  "terminal_error = \<lparr>exited = False, readable = True, writable = True, exceptional = True,
     pending = Inr (lit ''bye'' @ [10])\<rparr>"



section \<open>Evaluation and string lemmas\<close>

lemmas py_eval =
  lit_def startswith_def contains_str_def partition_str_def is_linebreak_def splitlines_def
  split_nl_def rstrip_cr_def is_answer_def is_plus_minus_def flush_def use_default_def
  extract_step_def extract_init_def extract_changes_def unlines_def



section \<open>The extractor\<close>

lemma extract_step_change:
  assumes "\<forall>l \<in> set (change st). is_plus_minus l" "extract_step d st line = (st', ys)"
  shows "(\<forall>l \<in> set (change st'). is_plus_minus l) \<and>
         (\<forall>(p, c) \<in> set ys. c \<noteq> [] \<and> (\<forall>l \<in> set c. is_plus_minus l))"
  using assms
  by (auto simp: extract_step_def flush_def use_default_def Let_def split: if_splits)

lemma extract_loop_change:
  "\<forall>l \<in> set (change st). is_plus_minus l \<Longrightarrow> (p, c) \<in> set (extract_loop d st ls) \<Longrightarrow>
     c \<noteq> [] \<and> (\<forall>l \<in> set c. is_plus_minus l)"
proof (induction ls arbitrary: st)
  case Nil
  then show ?case by (auto simp: flush_def split: if_splits)
next
  case (Cons line ls)
  obtain st' ys where step: "extract_step d st line = (st', ys)" by (cases "extract_step d st line")
  from extract_step_change[OF Cons.prems(1) step]
  have inv: "\<forall>l \<in> set (change st'). is_plus_minus l"
    and ys: "\<forall>(p, c) \<in> set ys. c \<noteq> [] \<and> (\<forall>l \<in> set c. is_plus_minus l)" by auto
  from Cons.prems(2) step have "(p, c) \<in> set ys \<or> (p, c) \<in> set (extract_loop d st' ls)" by simp
  then show ?case using ys Cons.IH[OF inv] by auto
qed

lemma extract_changes_change:
  "(p, c) \<in> set (extract_changes output d) \<Longrightarrow> c \<noteq> [] \<and> (\<forall>l \<in> set c. is_plus_minus l)"
  unfolding extract_changes_def
  by (rule extract_loop_change[of extract_init]) (simp_all add: extract_init_def)

lemma answer_not_plus_minus: "is_answer l \<Longrightarrow> \<not> is_plus_minus l"
  by (auto simp: is_answer_def is_plus_minus_def startswith_def lit_def)

lemma extract_step_answer: "is_answer line \<Longrightarrow> extract_step d st line = (st, [])"
  by (simp add: extract_step_def)

lemma extract_loop_filter_answers:
  "extract_loop d st (filter (\<lambda>l. \<not> is_answer l) ls) = extract_loop d st ls"
  by (induction ls arbitrary: st) (auto simp: extract_step_answer split: prod.splits)

text \<open>
  Claim C10. Every change that \<open>extract_changes\<close> yields, for any input text and any default
  path, is a non-empty list, and each of its lines starts with \<^verbatim>\<open>+\<close> or \<^verbatim>\<open>-\<close>: an empty
  change is never yielded.
\<close>

theorem extract_changes_nonempty_signed:
  "(p, c) \<in> set (extract_changes output default_path) \<Longrightarrow>
     c \<noteq> [] \<and> (\<forall>l \<in> set c. startswith l (lit ''+'') \<or> startswith l (lit ''-''))"
  using extract_changes_change[of p c "output" default_path] by (simp add: is_plus_minus_def)

theorem extract_changes_nonempty_signed_witness:
  "(None, [lit ''+foo'', lit ''-bar'']) \<in> set (extract_changes (unlines [lit ''+foo'', lit ''-bar'', lit '' baz'', lit ''+qux'']) None) \<and>
   [lit ''+foo'', lit ''-bar''] \<noteq> [] \<and>
   startswith (lit ''+foo'') (lit ''+'') \<and> startswith (lit ''-bar'') (lit ''-'')"
proof -
  have mem: "(None, [lit ''+foo'', lit ''-bar'']) \<in> set (extract_changes (unlines [lit ''+foo'', lit ''-bar'', lit '' baz'', lit ''+qux'']) None)"
    by (simp add: py_eval)
  from extract_changes_nonempty_signed[OF mem] mem show ?thesis
    by (simp add: lit_def startswith_def)
qed

text \<open>
  Claim C9. A line that is exactly \<^verbatim>\<open>n\<close>, \<^verbatim>\<open>y\<close> or \<^verbatim>\<open>s\<close> is a no-op for \<open>extract_changes\<close>:
  the loop body leaves the locals as they are, the change being accumulated included, and
  yields nothing; the pairs yielded are those of the same lines with the answer lines
  removed; and no yielded change holds such a line.
\<close>

theorem answer_lines_are_skipped:
  "(\<forall>st line. is_answer line \<longrightarrow> extract_step default_path st line = (st, [])) \<and>
   extract_loop default_path extract_init (filter (\<lambda>l. \<not> is_answer l) (splitlines output))
     = extract_changes output default_path \<and>
   (\<forall>(p, c) \<in> set (extract_changes output default_path). \<forall>l \<in> set c. \<not> is_answer l)"
proof (intro conjI allI impI)
  fix st line assume "is_answer line"
  then show "extract_step default_path st line = (st, [])" by (rule extract_step_answer)
next
  show "extract_loop default_path extract_init (filter (\<lambda>l. \<not> is_answer l) (splitlines output))
     = extract_changes output default_path"
    by (simp add: extract_changes_def extract_loop_filter_answers)
next
  show "\<forall>(p, c) \<in> set (extract_changes output default_path). \<forall>l \<in> set c. \<not> is_answer l"
    using extract_changes_change answer_not_plus_minus by blast
qed

theorem answer_lines_are_skipped_witness:
  "is_answer (lit ''y'') \<and>
   extract_step None \<lparr>a_path = None, b_path = None, change = [lit ''+foo'']\<rparr> (lit ''y'')
     = (\<lparr>a_path = None, b_path = None, change = [lit ''+foo'']\<rparr>, []) \<and>
   extract_changes (unlines [lit ''+foo'', lit ''y'', lit ''-bar'']) None
     = [(None, [lit ''+foo'', lit ''-bar''])] \<and>
   extract_changes (unlines [lit ''+foo'', lit ''y'', lit ''-bar'']) None
     = extract_changes (unlines [lit ''+foo'', lit ''-bar'']) None \<and>
   \<not> is_answer (lit ''+foo'') \<and> \<not> is_answer (lit ''-bar'')"
proof -
  let ?t = "unlines [lit ''+foo'', lit ''y'', lit ''-bar'']"
  have ans: "is_answer (lit ''y'')" by (simp add: is_answer_def)
  have val: "extract_changes ?t None = [(None, [lit ''+foo'', lit ''-bar''])]"
    by (simp add: py_eval)
  have val': "extract_changes (unlines [lit ''+foo'', lit ''-bar'']) None = [(None, [lit ''+foo'', lit ''-bar''])]"
    by (simp add: py_eval)
  note skipped = answer_lines_are_skipped[of None ?t]
  from skipped ans have step: "extract_step None \<lparr>a_path = None, b_path = None, change = [lit ''+foo'']\<rparr> (lit ''y'')
     = (\<lparr>a_path = None, b_path = None, change = [lit ''+foo'']\<rparr>, [])" by blast
  from skipped have "\<forall>(p, c) \<in> set (extract_changes ?t None). \<forall>l \<in> set c. \<not> is_answer l" by blast
  with val have na: "\<not> is_answer (lit ''+foo'') \<and> \<not> is_answer (lit ''-bar'')" by simp
  from ans step val val' na show ?thesis by simp
qed

section \<open>Runs of the generator\<close>






section \<open>The default path\<close>

text \<open>
  Claim C8, as the code has it. For a text none of whose lines starts with \<^verbatim>\<open>--- a/\<close>, and
  a default path that is a non-empty string, every pair yielded carries the default path.
  The test of the source is \<^verbatim>\<open>if not a_path and default_path\<close>, so an empty string passed
  as the default path counts as none.
\<close>

lemma extract_step_defaulted:
  assumes "defaulted d st" "d \<noteq> []" "\<not> startswith line (lit ''--- a/'')"
    "extract_step (Some d) st line = (st', ys)"
  shows "defaulted d st' \<and> (\<forall>(p, c) \<in> set ys. p = Some d)"
  using assms
  by (auto simp: extract_step_def defaulted_def flush_def use_default_def Let_def
      split: if_splits)

lemma extract_loop_defaulted:
  "defaulted d st \<Longrightarrow> d \<noteq> [] \<Longrightarrow> \<forall>l \<in> set ls. \<not> startswith l (lit ''--- a/'') \<Longrightarrow>
   (p, c) \<in> set (extract_loop (Some d) st ls) \<Longrightarrow> p = Some d"
proof (induction ls arbitrary: st)
  case Nil
  then show ?case by (auto simp: flush_def defaulted_def split: if_splits)
next
  case (Cons line ls)
  obtain st' ys where step: "extract_step (Some d) st line = (st', ys)"
    by (cases "extract_step (Some d) st line")
  from Cons.prems(3) have nm: "\<not> startswith line (lit ''--- a/'')" by simp
  from extract_step_defaulted[OF Cons.prems(1,2) nm step]
  have inv: "defaulted d st'" and ys: "\<forall>(p, c) \<in> set ys. p = Some d" by auto
  from Cons.prems(4) step have "(p, c) \<in> set ys \<or> (p, c) \<in> set (extract_loop (Some d) st' ls)"
    by simp
  then show ?case using ys Cons.IH[OF inv Cons.prems(2)] Cons.prems(3) by auto
qed

theorem default_path_emitted:
  assumes "\<forall>l \<in> set (splitlines output). \<not> startswith l (lit ''--- a/'')"
    and "d \<noteq> []"
    and "(p, c) \<in> set (extract_changes output (Some d))"
  shows "p = Some d"
  using assms extract_loop_defaulted[of d extract_init "splitlines output" p c]
  by (simp add: extract_changes_def defaulted_def extract_init_def)

theorem default_path_emitted_witness:
  "splitlines (unlines [lit ''@@ -1 +1 @@'', lit ''-a'', lit ''+b'']) = [lit ''@@ -1 +1 @@'', lit ''-a'', lit ''+b''] \<and>
   \<not> startswith (lit ''@@ -1 +1 @@'') (lit ''--- a/'') \<and>
   \<not> startswith (lit ''-a'') (lit ''--- a/'') \<and> \<not> startswith (lit ''+b'') (lit ''--- a/'') \<and>
   lit ''f.py'' \<noteq> [] \<and>
   extract_changes (unlines [lit ''@@ -1 +1 @@'', lit ''-a'', lit ''+b'']) (Some (lit ''f.py''))
     = [(Some (lit ''f.py''), [lit ''-a'', lit ''+b''])]"
proof -
  let ?t = "unlines [lit ''@@ -1 +1 @@'', lit ''-a'', lit ''+b'']"
  have sl: "splitlines ?t = [lit ''@@ -1 +1 @@'', lit ''-a'', lit ''+b'']" by (simp add: py_eval)
  have nm: "\<forall>l \<in> set (splitlines ?t). \<not> startswith l (lit ''--- a/'')"
    unfolding sl by (simp add: lit_def startswith_def)
  have ne: "lit ''f.py'' \<noteq> []" by (simp add: lit_def)
  obtain p where val: "extract_changes ?t (Some (lit ''f.py'')) = [(p, [lit ''-a'', lit ''+b''])]"
    by (simp add: py_eval)
  then have "(p, [lit ''-a'', lit ''+b'']) \<in> set (extract_changes ?t (Some (lit ''f.py'')))" by simp
  from default_path_emitted[OF nm ne this] val sl nm ne show ?thesis by simp
qed

text \<open>
  With the empty string as default path the pair yielded for the text \<^verbatim>\<open>+foo\<close> carries
  \<^verbatim>\<open>None\<close>, not the default path.
\<close>

theorem default_path_empty_counterexample:
  "splitlines (lit ''+foo'') = [lit ''+foo''] \<and>
   \<not> startswith (lit ''+foo'') (lit ''--- a/'') \<and>
   extract_changes (lit ''+foo'') (Some []) = [(None, [lit ''+foo''])] \<and>
   None \<noteq> Some ([] :: pystr)"
  by (simp add: py_eval)

section \<open>Extraction from a diff text\<close>
























text \<open>
  A removed line whose text starts with \<^verbatim>\<open>-- a/\<close> reads as a path line: it sets the path
  and is left out of the change.
\<close>

lemma path_like_removed_line:
  "extract_changes
     (unlines [lit ''diff --git a/f.py b/f.py'', lit ''index 1a2b3c4..5d6e7f8 100644'',
        lit ''--- a/f.py'', lit ''+++ b/f.py'', lit ''@@ -1,2 +1 @@'', lit ''--- a/g'', lit ''-x'']) None
     = [(Some (lit ''g''), [lit ''-x''])]"
  by (simp add: py_eval)

section \<open>Decisions of the engine\<close>

lemma is_prompt_prompt_line: "is_prompt prompt_line"
  by (simp add: is_prompt_def prompt_line_def contains_str_def lit_def startswith_def)

lemma not_prompt_examples:
  "\<not> is_prompt (lit ''+a'')" "\<not> is_prompt (lit '' c'')" "\<not> is_prompt (lit ''+b'')"
  "\<not> is_prompt (lit ''-b'')" "\<not> is_prompt (lit ''+foo'')"
  "\<not> is_prompt (lit ''--- a/a.txt'')" "\<not> is_prompt (lit ''+++ b/a.txt'')"
  by (simp_all add: is_prompt_def contains_str_def lit_def startswith_def)

lemma consume_append:
  "consume f e (xs @ ys) =
     (case consume f e xs of
        (Some err, e', ws) \<Rightarrow> (Some err, e', ws)
      | (None, e', ws) \<Rightarrow> (case consume f e' ys of (r, e'', ws') \<Rightarrow> (r, e'', ws @ ws')))"
proof (induction xs arbitrary: e)
  case Nil
  show ?case by (simp split: prod.splits)
next
  case (Cons x xs)
  show ?case
    by (simp add: Cons.IH split: prod.splits option.splits)
qed

lemma consume_buffering:
  "\<forall>l \<in> set seg. \<not> is_prompt l \<Longrightarrow>
   consume (engine_step member hook) e seg = (None, e\<lparr>buffer := buffer e @ unlines seg\<rparr>, [])"
proof (induction seg arbitrary: e)
  case Nil
  show ?case by (simp add: unlines_def)
next
  case (Cons l seg)
  then have "\<not> is_prompt l" and rest: "\<forall>l \<in> set seg. \<not> is_prompt l" by simp_all
  then have "engine_step member hook e l = (None, e\<lparr>buffer := buffer e @ l @ [10]\<rparr>, [])"
    by (simp add: engine_step_def)
  with Cons.IH[OF rest, of "e\<lparr>buffer := buffer e @ l @ [10]\<rparr>"] show ?case
    by (simp add: unlines_def)
qed

lemma py_in_TypeError: "py_in self chg = Inl TypeError"
  by (simp add: py_in_def IgnoredSuggestionStore_methods_def)

text \<open>
  Claim C3. Whenever the buffered text of a recognised prompt extracts to more than one
  change, the engine writes the single answer \<^verbatim>\<open>s\<close> for that prompt, and neither \<^verbatim>\<open>y\<close> nor
  \<^verbatim>\<open>n\<close>; no exception is raised and the buffer is cleared. The witness is a buffer with two
  runs separated by a context line, both without headers.
\<close>

theorem several_changes_answer_split:
  assumes "\<forall>l \<in> set seg. \<not> is_prompt l" and "is_prompt line"
    and "length (extract_changes (buffer e @ unlines seg) (path e)) > 1"
  shows "engine_step member hook (e\<lparr>buffer := buffer e @ unlines seg\<rparr>) line
           = (None, e\<lparr>buffer := []\<rparr>, [lit ''s'']) \<and>
         consume (engine_step member hook) e (seg @ [line])
           = (None, e\<lparr>buffer := []\<rparr>, [lit ''s''])"
proof -
  have step: "engine_step member hook (e\<lparr>buffer := buffer e @ unlines seg\<rparr>) line
           = (None, e\<lparr>buffer := []\<rparr>, [lit ''s''])"
    using assms(2,3) by (simp add: engine_step_def decide_def)
  then show ?thesis
    by (simp add: consume_append consume_buffering[OF assms(1)])
qed

theorem several_changes_answer_split_witness:
  "\<not> is_prompt (lit ''+a'') \<and> \<not> is_prompt (lit '' c'') \<and> \<not> is_prompt (lit ''-b'') \<and>
   is_prompt prompt_line \<and>
   extract_changes (unlines [lit ''+a'', lit '' c'', lit ''-b'']) None
     = [(None, [lit ''+a'']), (None, [lit ''-b''])] \<and>
   consume (engine_step py_in resume) (engine_init empty_store)
     [lit ''+a'', lit '' c'', lit ''-b'', prompt_line]
   = (None, \<lparr>buffer = [], path = None, policy = empty_store, breaks = 0\<rparr>, [lit ''s''])"
proof -
  let ?seg = "[lit ''+a'', lit '' c'', lit ''-b'']"
  let ?e = "engine_init empty_store :: IgnoredSuggestionStore engine"
  have np: "\<forall>l \<in> set ?seg. \<not> is_prompt l" by (simp add: not_prompt_examples)
  have val: "extract_changes (unlines ?seg) None = [(None, [lit ''+a'']), (None, [lit ''-b''])]"
    by (simp add: py_eval)
  then have len: "length (extract_changes (buffer ?e @ unlines ?seg) (path ?e)) > 1"
    by (simp add: engine_init_def)
  from several_changes_answer_split[OF np is_prompt_prompt_line len, of py_in resume]
  have "consume (engine_step py_in resume) ?e (?seg @ [prompt_line])
      = (None, ?e\<lparr>buffer := []\<rparr>, [lit ''s''])" by (rule conjunct2)
  with val not_prompt_examples is_prompt_prompt_line show ?thesis
    by (simp add: engine_init_def)
qed

lemma decide_resets_buffer:
  "decide member hook e line = (None, e', ws) \<Longrightarrow> buffer e' = []"
  by (auto simp: decide_def Let_def split: if_splits prod.splits sum.splits bool.splits)

lemma decide_writes:
  "decide member hook e line = (r, e', ws) \<Longrightarrow>
     ws = [] \<or> ws = [lit ''s''] \<or> ws = [lit ''y''] \<or> ws = [lit ''n'']"
  by (auto simp: decide_def Let_def split: if_splits prod.splits sum.splits bool.splits)

text \<open>
  Claim C4, as the code has it. Whenever extraction yields no change for a recognised
  prompt, the engine calls \<^verbatim>\<open>breakpoint()\<close> and writes no answer line for that prompt. It
  prints no diagnostic and does not halt the session: when the hook comes back the buffer
  is cleared, the path, the policy and the queue stay as they are, and the loop goes on
  with the next line; the session ends there only when the debugger is quit.
\<close>

theorem no_changes_calls_breakpoint:
  assumes "is_prompt line" and "extract_changes (buffer e) (path e) = []"
  shows "engine_step member hook e line =
           (if hook (breaks e) then (None, e\<lparr>buffer := [], breaks := Suc (breaks e)\<rparr>, [])
            else (Some BdbQuit, e\<lparr>breaks := Suc (breaks e)\<rparr>, [])) \<and>
         consume (engine_step member hook) e (line # rest) =
           (if hook (breaks e)
            then consume (engine_step member hook) (e\<lparr>buffer := [], breaks := Suc (breaks e)\<rparr>) rest
            else (Some BdbQuit, e\<lparr>breaks := Suc (breaks e)\<rparr>, []))"
proof -
  have step: "engine_step member hook e line =
           (if hook (breaks e) then (None, e\<lparr>buffer := [], breaks := Suc (breaks e)\<rparr>, [])
            else (Some BdbQuit, e\<lparr>breaks := Suc (breaks e)\<rparr>, []))"
    using assms by (simp add: engine_step_def decide_def)
  then show ?thesis by (simp split: prod.splits)
qed

theorem no_changes_calls_breakpoint_witness:
  "is_prompt prompt_line \<and>
   extract_changes (unlines [lit ''@@ -1 +1 @@'', lit '' ctx'']) None = [] \<and>
   engine_step py_in resume
     \<lparr>buffer = unlines [lit ''@@ -1 +1 @@'', lit '' ctx''], path = None, policy = empty_store, breaks = 0\<rparr>
     prompt_line
     = (None, \<lparr>buffer = [], path = None, policy = empty_store, breaks = Suc 0\<rparr>, []) \<and>
   engine_step py_in (\<lambda>k. False)
     \<lparr>buffer = unlines [lit ''@@ -1 +1 @@'', lit '' ctx''], path = None, policy = empty_store, breaks = 0\<rparr>
     prompt_line
     = (Some BdbQuit, \<lparr>buffer = unlines [lit ''@@ -1 +1 @@'', lit '' ctx''], path = None,
          policy = empty_store, breaks = Suc 0\<rparr>, [])"
proof -
  let ?e = "\<lparr>buffer = unlines [lit ''@@ -1 +1 @@'', lit '' ctx''], path = None,
    policy = empty_store, breaks = 0\<rparr>"
  have val: "extract_changes (unlines [lit ''@@ -1 +1 @@'', lit '' ctx'']) None = []"
    by (simp add: py_eval)
  then have none: "extract_changes (buffer ?e) (path ?e) = []" by simp
  from no_changes_calls_breakpoint[OF is_prompt_prompt_line none, of py_in resume "[]"]
    no_changes_calls_breakpoint[OF is_prompt_prompt_line none, of py_in "\<lambda>k. False" "[]"]
    val is_prompt_prompt_line
  show ?thesis by (simp add: resume_def)
qed

text \<open>
  With a hook that comes back, the session goes on after a prompt with no change: the
  engine answers a later prompt.
\<close>

theorem session_goes_on_after_breakpoint:
  "is_prompt prompt_line \<and>
   extract_changes (unlines [lit ''@@ -1 +1 @@'', lit '' ctx'']) None = [] \<and>
   consume (engine_step py_in resume) (engine_init empty_store)
     [lit ''@@ -1 +1 @@'', lit '' ctx'', prompt_line] 
     = (None, \<lparr>buffer = [], path = None, policy = empty_store, breaks = 1\<rparr>, []) \<and>
   consume (engine_step py_in resume) (engine_init empty_store)
     [lit ''@@ -1 +1 @@'', lit '' ctx'', prompt_line, lit ''+a'', lit '' c'', lit ''+b'', prompt_line]
     = (None, \<lparr>buffer = [], path = None, policy = empty_store, breaks = 1\<rparr>, [lit ''s''])"
proof -
  have np: "\<not> is_prompt (lit ''@@ -1 +1 @@'')" "\<not> is_prompt (lit '' ctx'')"
    by (simp_all add: is_prompt_def contains_str_def lit_def startswith_def)
  have v0: "extract_changes (unlines [lit ''@@ -1 +1 @@'', lit '' ctx'']) None = []"
    by (simp add: py_eval)
  have v0': "extract_changes (lit ''@@ -1 +1 @@'' @ 10 # lit '' ctx'' @ [10]) None = []"
    using v0 by (simp add: unlines_def)
  have v1: "extract_changes (lit ''+a'' @ 10 # lit '' c'' @ 10 # lit ''+b'' @ [10]) None
     = [(None, [lit ''+a'']), (None, [lit ''+b''])]"
    by (simp add: py_eval)
  show ?thesis
    using np v0
    by (simp add: engine_step_def decide_def engine_init_def is_prompt_prompt_line
        not_prompt_examples v0' v1 resume_def)
qed

text \<open>
  Claim C6, as the code has it. A line without the recognition phrase is appended to the
  buffer, with a newline, and nothing is written. At a line with the phrase the decision is
  taken on exactly the text buffered since the previous line with the phrase (or since the
  start), whether or not that line led to an answer; it writes at most one answer, and when
  it raises nothing the buffer is empty afterwards, so no text reaches two decisions and the
  loop goes on from the emptied buffer.
\<close>

theorem prompt_buffer_invariant:
  assumes "\<forall>l \<in> set seg. \<not> is_prompt l" and "is_prompt line"
  shows "consume (engine_step member hook) e seg
           = (None, e\<lparr>buffer := buffer e @ unlines seg\<rparr>, []) \<and>
         consume (engine_step member hook) e (seg @ line # rest) =
           (case decide member hook (e\<lparr>buffer := buffer e @ unlines seg\<rparr>) line of
              (Some err, e', ws) \<Rightarrow> (Some err, e', ws)
            | (None, e', ws) \<Rightarrow>
                (case consume (engine_step member hook) e' rest of
                   (r, e'', ws') \<Rightarrow> (r, e'', ws @ ws'))) \<and>
         (\<forall>e' ws. decide member hook (e\<lparr>buffer := buffer e @ unlines seg\<rparr>) line = (None, e', ws)
            \<longrightarrow> buffer e' = [] \<and> length ws \<le> 1)"
proof (intro conjI allI impI)
  show seg: "consume (engine_step member hook) e seg
           = (None, e\<lparr>buffer := buffer e @ unlines seg\<rparr>, [])"
    by (rule consume_buffering[OF assms(1)])
  show "consume (engine_step member hook) e (seg @ line # rest) =
           (case decide member hook (e\<lparr>buffer := buffer e @ unlines seg\<rparr>) line of
              (Some err, e', ws) \<Rightarrow> (Some err, e', ws)
            | (None, e', ws) \<Rightarrow>
                (case consume (engine_step member hook) e' rest of
                   (r, e'', ws') \<Rightarrow> (r, e'', ws @ ws')))"
    using assms(2) by (simp add: consume_append seg engine_step_def)
next
  fix e' ws
  assume d: "decide member hook (e\<lparr>buffer := buffer e @ unlines seg\<rparr>) line = (None, e', ws)"
  from decide_resets_buffer[OF d] show "buffer e' = []" .
  from decide_writes[OF d] show "length ws \<le> 1" by auto
qed

theorem prompt_buffer_invariant_witness:
  "\<not> is_prompt (lit ''+a'') \<and> \<not> is_prompt (lit '' c'') \<and> \<not> is_prompt (lit ''+b'') \<and>
   is_prompt prompt_line \<and>
   consume (engine_step py_in resume) (engine_init empty_store) [lit ''+a'', lit '' c'', lit ''+b'']
     = (None, \<lparr>buffer = unlines [lit ''+a'', lit '' c'', lit ''+b''], path = None,
          policy = empty_store, breaks = 0\<rparr>, []) \<and>
   consume (engine_step py_in resume) (engine_init empty_store)
     [lit ''+a'', lit '' c'', lit ''+b'', prompt_line, lit ''+a'']
     = (None, \<lparr>buffer = unlines [lit ''+a''], path = None, policy = empty_store, breaks = 0\<rparr>,
        [lit ''s''])"
proof -
  let ?seg = "[lit ''+a'', lit '' c'', lit ''+b'']"
  let ?e = "engine_init empty_store :: IgnoredSuggestionStore engine"
  have np: "\<forall>l \<in> set ?seg. \<not> is_prompt l" by (simp add: not_prompt_examples)
  have v1: "extract_changes (unlines ?seg) None = [(None, [lit ''+a'']), (None, [lit ''+b''])]"
    by (simp add: py_eval)
  have st: "?e\<lparr>buffer := buffer ?e @ unlines ?seg\<rparr>
      = \<lparr>buffer = unlines ?seg, path = None, policy = empty_store, breaks = 0\<rparr>"
    by (simp add: engine_init_def)
  have d: "decide py_in resume (?e\<lparr>buffer := buffer ?e @ unlines ?seg\<rparr>) prompt_line
      = (None, ?e, [lit ''s''])"
    unfolding st by (simp add: decide_def engine_init_def v1)
  have after: "consume (engine_step py_in resume) ?e [lit ''+a'']
      = (None, \<lparr>buffer = unlines [lit ''+a''], path = None, policy = empty_store, breaks = 0\<rparr>, [])"
    by (simp add: engine_step_def engine_init_def not_prompt_examples unlines_def)
  note inv = prompt_buffer_invariant[OF np is_prompt_prompt_line, of py_in resume ?e "[lit ''+a'']"]
  from inv have a: "consume (engine_step py_in resume) ?e ?seg
      = (None, ?e\<lparr>buffer := buffer ?e @ unlines ?seg\<rparr>, [])" by (rule conjunct1)
  from inv have b: "consume (engine_step py_in resume) ?e (?seg @ prompt_line # [lit ''+a'']) =
      (case decide py_in resume (?e\<lparr>buffer := buffer ?e @ unlines ?seg\<rparr>) prompt_line of
         (Some err, e', ws) \<Rightarrow> (Some err, e', ws)
       | (None, e', ws) \<Rightarrow>
           (case consume (engine_step py_in resume) e' [lit ''+a''] of
              (r, e'', ws') \<Rightarrow> (r, e'', ws @ ws')))"
    by (rule conjunct1[OF conjunct2])
  have b': "consume (engine_step py_in resume) ?e (?seg @ prompt_line # [lit ''+a''])
      = (None, \<lparr>buffer = unlines [lit ''+a''], path = None, policy = empty_store, breaks = 0\<rparr>,
         [lit ''s''])"
    unfolding b d by (simp only: after prod.case option.case append.simps)
  have app: "?seg @ prompt_line # [lit ''+a''] = [lit ''+a'', lit '' c'', lit ''+b'', prompt_line, lit ''+a'']"
    by simp
  from a[unfolded st] b'[unfolded app] not_prompt_examples is_prompt_prompt_line
  show ?thesis by blast
qed

text \<open>
  A path line buffered before a prompt with no change is dropped there without a
  decision: the first answer of the session is taken on a buffer that lacks a line
  buffered since the start.
\<close>

theorem buffered_text_dropped_without_decision:
  "consume (engine_step py_in resume) (engine_init empty_store) [lit ''--- a/a.txt'', prompt_line]
     = (None, \<lparr>buffer = [], path = None, policy = empty_store, breaks = 1\<rparr>, []) \<and>
   consume (engine_step py_in resume) (engine_init empty_store)
     [lit ''--- a/a.txt'', prompt_line, lit ''+a'', lit '' c'', lit ''+b'']
     = (None, \<lparr>buffer = unlines [lit ''+a'', lit '' c'', lit ''+b''], path = None,
          policy = empty_store, breaks = 1\<rparr>, []) \<and>
   consume (engine_step py_in resume) (engine_init empty_store)
     [lit ''--- a/a.txt'', prompt_line, lit ''+a'', lit '' c'', lit ''+b'', prompt_line]
     = (None, \<lparr>buffer = [], path = None, policy = empty_store, breaks = 1\<rparr>, [lit ''s'']) \<and>
   unlines [lit ''+a'', lit '' c'', lit ''+b'']
     \<noteq> unlines [lit ''--- a/a.txt'', lit ''+a'', lit '' c'', lit ''+b'']"
proof -
  have v0: "extract_changes (lit ''--- a/a.txt'' @ [10]) None = []"
    by (simp add: py_eval)
  have v1: "extract_changes (lit ''+a'' @ 10 # lit '' c'' @ 10 # lit ''+b'' @ [10]) None
     = [(None, [lit ''+a'']), (None, [lit ''+b''])]"
    by (simp add: py_eval)
  have ne: "unlines [lit ''+a'', lit '' c'', lit ''+b'']
     \<noteq> unlines [lit ''--- a/a.txt'', lit ''+a'', lit '' c'', lit ''+b'']"
    by (simp add: unlines_def lit_def)
  show ?thesis
    using ne
    by (simp add: engine_step_def decide_def engine_init_def is_prompt_prompt_line
        not_prompt_examples v0 v1 resume_def) (simp add: unlines_def)
qed

subsection \<open>Membership in the store\<close>

text \<open>
  For the class as it is written, every prompt with exactly one change raises
  \<^verbatim>\<open>TypeError\<close> at the membership test and writes nothing. Were the method found under the
  name \<^verbatim>\<open>__contains__\<close>, the answer would be \<^verbatim>\<open>y\<close> exactly for the members of the policy.
\<close>

lemma single_change_raises:
  assumes "is_prompt line" and "extract_changes (buffer e) (path e) = [(p, c)]"
  shows "engine_step py_in hook e line = (Some TypeError, e\<lparr>path := p\<rparr>, [])"
  using assms by (simp add: engine_step_def decide_def py_in_TypeError)

lemma single_change_intended:
  assumes "is_prompt line" and "extract_changes (buffer e) (path e) = [(p, c)]"
    and "contains_method (policy e) (p, c) = (b, pol)"
  shows "engine_step (\<lambda>self chg. Inr (contains_method self chg)) hook e line
    = (None, e\<lparr>buffer := [], path := p, policy := pol\<rparr>, [if b then lit ''y'' else lit ''n''])"
  using assms by (simp add: engine_step_def decide_def)

text \<open>
  Claim C1 says that a prompt with exactly one change is answered \<^verbatim>\<open>y\<close> if and only if the
  pair is a member of the policy, and \<^verbatim>\<open>n\<close> otherwise. On the code, for the store that
  ignores the change \<^verbatim>\<open>+foo\<close> of \<^verbatim>\<open>a.txt\<close> and the prompt for exactly that hunk, the pair
  extracted is a member by the method of the store, and the engine raises \<^verbatim>\<open>TypeError\<close> and
  writes no answer.
\<close>

theorem ignored_hunk_prompt_raises:
  "extract_changes
     (unlines [lit ''diff --git a/a.txt b/a.txt'', lit ''index e69de29..257cc56 100644'',
        lit ''--- a/a.txt'', lit ''+++ b/a.txt'', lit ''@@ -0,0 +1 @@'', lit ''+foo'']) None
     = [(Some (lit ''a.txt''), [lit ''+foo''])] \<and>
   fst (contains_method foo_store (Some (lit ''a.txt''), [lit ''+foo''])) \<and>
   consume (engine_step py_in resume) (engine_init foo_store)
     [lit ''diff --git a/a.txt b/a.txt'', lit ''index e69de29..257cc56 100644'',
      lit ''--- a/a.txt'', lit ''+++ b/a.txt'', lit ''@@ -0,0 +1 @@'', lit ''+foo'', prompt_line]
     = (Some TypeError,
        \<lparr>buffer = unlines [lit ''diff --git a/a.txt b/a.txt'',
           lit ''index e69de29..257cc56 100644'', lit ''--- a/a.txt'', lit ''+++ b/a.txt'',
           lit ''@@ -0,0 +1 @@'', lit ''+foo''],
         path = Some (lit ''a.txt''), policy = foo_store, breaks = 0\<rparr>, [])"
proof -
  let ?seg = "[lit ''diff --git a/a.txt b/a.txt'', lit ''index e69de29..257cc56 100644'',
        lit ''--- a/a.txt'', lit ''+++ b/a.txt'', lit ''@@ -0,0 +1 @@'', lit ''+foo'']"
  let ?e = "engine_init foo_store :: IgnoredSuggestionStore engine"
  have val: "extract_changes (unlines ?seg) None = [(Some (lit ''a.txt''), [lit ''+foo''])]"
    by (simp add: py_eval)
  have mem: "fst (contains_method foo_store (Some (lit ''a.txt''), [lit ''+foo'']))"
    by (simp add: contains_method_def foo_store_def)
  have np: "\<forall>l \<in> set ?seg. \<not> is_prompt l"
    by (simp add: is_prompt_def contains_str_def lit_def startswith_def)
  have seg: "consume (engine_step py_in resume) ?e ?seg
      = (None, ?e\<lparr>buffer := buffer ?e @ unlines ?seg\<rparr>, [])"
    by (rule consume_buffering[OF np])
  have st: "?e\<lparr>buffer := buffer ?e @ unlines ?seg\<rparr>
      = \<lparr>buffer = unlines ?seg, path = None, policy = foo_store, breaks = 0\<rparr>"
    by (simp add: engine_init_def)
  have step: "engine_step py_in resume
      \<lparr>buffer = unlines ?seg, path = None, policy = foo_store, breaks = 0\<rparr> prompt_line
      = (Some TypeError, \<lparr>buffer = unlines ?seg, path = Some (lit ''a.txt''),
           policy = foo_store, breaks = 0\<rparr>, [])"
    using single_change_raises[OF is_prompt_prompt_line, of
        "\<lparr>buffer = unlines ?seg, path = None, policy = foo_store, breaks = 0\<rparr>"
        "Some (lit ''a.txt'')" "[lit ''+foo'']" resume] val
    by simp
  have "consume (engine_step py_in resume) ?e (?seg @ [prompt_line])
      = (Some TypeError, \<lparr>buffer = unlines ?seg, path = Some (lit ''a.txt''),
           policy = foo_store, breaks = 0\<rparr>, [])"
    unfolding consume_append seg st by (simp add: step)
  with val mem show ?thesis by simp
qed

section \<open>The line production loop\<close>

lemma consume_append_ok:
  assumes "consume f e (xs @ ys) = (None, e', ws)"
  obtains e1 ws1 ws2 where "consume f e xs = (None, e1, ws1)"
    "consume f e1 ys = (None, e', ws2)" "ws = ws1 @ ws2"
  using assms unfolding consume_append
  by (auto split: prod.splits option.splits)

lemma iter_alive_prefix:
  "\<forall>ob \<in> set pre. alive ob \<Longrightarrow> consume f e (concat (map read_lines pre)) = (None, e', ws) \<Longrightarrow>
   \<exists>pr'. iter f (pre @ post) e pr =
     (case iter f post e' pr' of
        (r, ys, e'', pr'') \<Rightarrow> (r, concat (map read_lines pre) @ ys, e'', pr''))"
proof (induction pre arbitrary: e pr ws)
  case Nil
  then show ?case by (auto split: prod.splits)
next
  case (Cons ob pre)
  from Cons.prems(1) have al: "alive ob" and rest: "\<forall>ob \<in> set pre. alive ob" by simp_all
  from Cons.prems(2) have "consume f e (read_lines ob @ concat (map read_lines pre)) = (None, e', ws)"
    by simp
  then obtain e1 ws1 ws2 where c1: "consume f e (read_lines ob) = (None, e1, ws1)"
    and c2: "consume f e1 (concat (map read_lines pre)) = (None, e', ws2)"
    by (rule consume_append_ok)
  from al have live: "\<not> exited ob" "\<not> exceptional ob" by (simp_all add: alive_def)
  show ?case
  proof (cases "readable ob")
    case True
    with al obtain chunk where chunk: "pending ob = Inr chunk"
      by (cases "pending ob") (auto simp: alive_def)
    with True have rl: "read_lines ob = chunk_lines chunk" by (simp add: read_lines_def)
    from c1 have c1': "consume f e (chunk_lines chunk) = (None, e1, ws1)" by (simp add: rl)
    from Cons.IH[OF rest c2, of "write_queued ob (foldl writeline pr ws1)"]
    obtain pr' where eq: "iter f (pre @ post) e1 (write_queued ob (foldl writeline pr ws1)) =
      (case iter f post e' pr' of
         (r, ys, e'', pr'') \<Rightarrow> (r, concat (map read_lines pre) @ ys, e'', pr''))" by blast
    have "iter f ((ob # pre) @ post) e pr =
      (case iter f (pre @ post) e1 (write_queued ob (foldl writeline pr ws1)) of
         (r, ys, e'', pr'') \<Rightarrow> (r, chunk_lines chunk @ ys, e'', pr''))"
      using live True chunk c1' by (simp split: prod.splits)
    also have "\<dots> = (case iter f post e' pr' of
        (r, ys, e'', pr'') \<Rightarrow> (r, concat (map read_lines (ob # pre)) @ ys, e'', pr''))"
      unfolding eq by (simp add: rl split: prod.splits)
    finally show ?thesis by blast
  next
    case False
    then have rl: "read_lines ob = []" by (simp add: read_lines_def)
    with c1 have e1: "e1 = e" by simp
    from Cons.IH[OF rest c2[unfolded e1], of "write_queued ob pr"]
    obtain pr' where eq: "iter f (pre @ post) e (write_queued ob pr) =
      (case iter f post e' pr' of
         (r, ys, e'', pr'') \<Rightarrow> (r, concat (map read_lines pre) @ ys, e'', pr''))" by blast
    have "iter f ((ob # pre) @ post) e pr = iter f (pre @ post) e (write_queued ob pr)"
      using live False by simp
    also have "\<dots> = (case iter f post e' pr' of
        (r, ys, e'', pr'') \<Rightarrow> (r, concat (map read_lines (ob # pre)) @ ys, e'', pr''))"
      unfolding eq by (simp add: rl split: prod.splits)
    finally show ?thesis by blast
  qed
qed

text \<open>
  Claim C5, as the code has it. While the child is not seen to have exited and the terminal
  reports no exceptional condition, the loop goes on: it yields, in order, the lines of each
  chunk it reads. It ends at the first iteration in which \<^verbatim>\<open>poll()\<close> reports the exit, without
  reading what is still pending on the terminal, or in which \<^verbatim>\<open>select\<close> reports an exceptional
  condition, where it returns without raising. The consumer is taken not to raise on the
  lines read.
\<close>

theorem iteration_ends_at_exit_or_error:
  assumes "\<forall>ob \<in> set pre. alive ob"
    and "consume f e (concat (map read_lines pre)) = (None, e', ws)"
  shows "fst (iter f pre e pr) = StillPolling \<and>
         fst (snd (iter f pre e pr)) = concat (map read_lines pre) \<and>
         fst (snd (snd (iter f pre e pr))) = e' \<and>
         (exited ob \<or> exceptional ob \<longrightarrow>
            fst (iter f (pre @ ob # post) e pr)
              = (if exited ob then ChildExited else TerminalError) \<and>
            fst (snd (iter f (pre @ ob # post) e pr)) = concat (map read_lines pre) \<and>
            fst (snd (snd (iter f (pre @ ob # post) e pr))) = e')"
proof -
  from iter_alive_prefix[OF assms, of "[]" pr]
  have "fst (iter f pre e pr) = StillPolling \<and>
         fst (snd (iter f pre e pr)) = concat (map read_lines pre) \<and>
         fst (snd (snd (iter f pre e pr))) = e'"
    by auto
  moreover have "fst (iter f (pre @ ob # post) e pr)
              = (if exited ob then ChildExited else TerminalError) \<and>
            fst (snd (iter f (pre @ ob # post) e pr)) = concat (map read_lines pre) \<and>
            fst (snd (snd (iter f (pre @ ob # post) e pr))) = e'"
    if "exited ob \<or> exceptional ob"
    using iter_alive_prefix[OF assms, of "ob # post" pr] that by auto
  ultimately show ?thesis by blast
qed

theorem iteration_ends_at_exit_or_error_witness:
  "alive hello_chunk \<and>
   consume (engine_step py_in resume) (engine_init empty_store) (read_lines hello_chunk)
     = (None, \<lparr>buffer = unlines [lit ''hello'', []], path = None, policy = empty_store,
          breaks = 0\<rparr>, []) \<and>
   exited exit_with_bye \<and>
   revert_ignored_changes py_in resume empty_store [hello_chunk]
     = (StillPolling, [lit ''hello'', []],
        \<lparr>buffer = unlines [lit ''hello'', []], path = None, policy = empty_store, breaks = 0\<rparr>,
        \<lparr>stdin_queue = [], master = []\<rparr>) \<and>
   fst (revert_ignored_changes py_in resume empty_store [hello_chunk, exit_with_bye])
     = ChildExited \<and>
   fst (snd (revert_ignored_changes py_in resume empty_store [hello_chunk, exit_with_bye]))
     = [lit ''hello'', []] \<and>
   exceptional terminal_error \<and>
   fst (revert_ignored_changes py_in resume empty_store [hello_chunk, terminal_error])
     = TerminalError \<and>
   fst (snd (revert_ignored_changes py_in resume empty_store [hello_chunk, terminal_error]))
     = [lit ''hello'', []]"
proof -
  let ?f = "engine_step py_in resume"
  let ?e = "engine_init empty_store :: IgnoredSuggestionStore engine"
  let ?e' = "\<lparr>buffer = unlines [lit ''hello'', []], path = None, policy = empty_store,
          breaks = 0\<rparr>"
  let ?pr = "\<lparr>stdin_queue = [], master = []\<rparr>"
  have al: "\<forall>ob \<in> set [hello_chunk]. alive ob"
    by (simp add: alive_def hello_chunk_def)
  have rl: "read_lines hello_chunk = [lit ''hello'', []]"
    by (simp add: read_lines_def hello_chunk_def chunk_lines_def split_nl_def rstrip_cr_def lit_def)
  have np: "\<not> is_prompt (lit ''hello'')" "\<not> is_prompt []"
    by (simp_all add: is_prompt_def contains_str_def lit_def startswith_def)
  have c: "consume ?f ?e (concat (map read_lines [hello_chunk])) = (None, ?e', [])"
    by (simp add: rl engine_step_def np engine_init_def unlines_def)
  have ex: "exited exit_with_bye" by (simp add: exit_with_bye_def)
  have er: "exceptional terminal_error" "\<not> exited terminal_error"
    by (simp_all add: terminal_error_def)
  note a = iteration_ends_at_exit_or_error[OF al c, where ob = exit_with_bye and post = "[]" and pr = ?pr]
  note b = iteration_ends_at_exit_or_error[OF al c, where ob = terminal_error and post = "[]" and pr = ?pr]
  have full: "revert_ignored_changes py_in resume empty_store [hello_chunk]
     = (StillPolling, [lit ''hello'', []], ?e', ?pr)"
    by (simp add: revert_ignored_changes_def hello_chunk_def chunk_lines_def split_nl_def
        rstrip_cr_def engine_step_def engine_init_def write_queued_def unlines_def
        lit_def is_prompt_def contains_str_def startswith_def)
  from a b ex er al c full show ?thesis
    by (simp add: revert_ignored_changes_def rl)
qed

text \<open>
  The child writes \<^verbatim>\<open>bye\<close> and exits before the next iteration: the line waits on the
  terminal and is never yielded.
\<close>

theorem pending_output_lost_at_exit:
  "exited exit_with_bye \<and> read_lines exit_with_bye = [lit ''bye'', []] \<and>
   fst (revert_ignored_changes py_in resume empty_store [hello_chunk, exit_with_bye])
     = ChildExited \<and>
   fst (snd (revert_ignored_changes py_in resume empty_store [hello_chunk, exit_with_bye]))
     = [lit ''hello'', []]"
  by (simp add: hello_chunk_def exit_with_bye_def read_lines_def chunk_lines_def split_nl_def
      rstrip_cr_def revert_ignored_changes_def engine_step_def engine_init_def write_queued_def
      lit_def is_prompt_def contains_str_def startswith_def)

end
